theory Spec2Isabelle
  imports Main "HOL-Library.Word"
begin

section \<open>JFR finalizer events: \<^verbatim>\<open>jfrFinalizerEvent.cpp\<close>\<close>

text \<open>
  The file turns the finalizer table into \<^verbatim>\<open>EventFinalizer\<close> events, on two paths:
  \<^verbatim>\<open>JfrFinalizerEvent::send_unload_event\<close> (one class, at unloading) and
  \<^verbatim>\<open>JfrFinalizerEvent::generate_events\<close> (every entry of the table, periodically).

  Pointers that the source tests or asserts against \<^verbatim>\<open>NULL\<close> are options (\<open>None\<close> is
  \<^verbatim>\<open>NULL\<close>). A HotSpot \<^verbatim>\<open>assert(..., "invariant")\<close> that fails stops the VM: it is the
  error value \<open>Invariant\<close>. What the file mutates (the symbol table, the committed
  events) is passed along in a \<open>world\<close> record. \<^verbatim>\<open>ResourceMark\<close> and the
  \<^verbatim>\<open>MutexLocker\<close> on \<^verbatim>\<open>ClassLoaderDataGraph_lock\<close> have no effect on a sequential run and
  are left out.
\<close>

subsection \<open>Data\<close>

type_synonym objref = nat
type_synonym oop = "objref option"
type_synonym Klass = nat
type_synonym Thread = nat
type_synonym JfrTicks = int
type_synonym traceid = "64 word"
type_synonym uintx = "64 word"

datatype error = Invariant

record InstanceKlass =
  ik_id :: nat
  java_mirror :: oop
  has_finalizer :: bool

text \<open>
  Modelled from the spec: the declaration of \<^verbatim>\<open>FinalizerEntry\<close>
  (\<^verbatim>\<open>services/finalizerTable.hpp\<close>) is not among the sources. The spec's TrackingEntry
  holds the identity of its type and the three counters; the accessors are the ones
  \<^verbatim>\<open>send_event\<close> calls.
\<close>

record FinalizerEntry =
  klass :: InstanceKlass
  registered :: uintx
  enqueued :: uintx
  finalized :: uintx

record JfrJavaArguments =
  args_klass :: Klass
  args_name :: string
  args_signature :: string
  args_receiver :: oop

text \<open>
  The reads of live Java objects that the file calls and does not define are
  parameters: \<^verbatim>\<open>java_lang_Class::protection_domain\<close>, \<^verbatim>\<open>oopDesc::klass\<close>,
  \<^verbatim>\<open>JfrJavaSupport::get_field\<close> (the oop it leaves in the \<^verbatim>\<open>JavaValue\<close> result) and
  \<^verbatim>\<open>JfrJavaSupport::c_str\<close> (a \<^verbatim>\<open>const char*\<close>, which may be \<^verbatim>\<open>NULL\<close>).
\<close>

record JavaRuntime =
  protection_domain :: "oop \<Rightarrow> oop"
  oop_klass :: "objref \<Rightarrow> Klass"
  get_field :: "JfrJavaArguments \<Rightarrow> Thread \<Rightarrow> oop"
  c_str :: "objref \<Rightarrow> Thread \<Rightarrow> string option"

record EventFinalizer =
  endtime :: "JfrTicks option"
  overridingClass :: "InstanceKlass option"
  codeSource :: traceid
  ev_registered :: uintx
  ev_enqueued :: uintx
  ev_finalized :: uintx

record world =
  runtime :: JavaRuntime
  current_thread :: Thread
  table :: "FinalizerEntry list"
  ticks :: JfrTicks
  symbols :: "(string \<times> traceid) list"
  committed :: "EventFinalizer list"

record FinalizerEventClosure =
  closure_thread :: "Thread option"
  closure_timestamp :: JfrTicks

subsection \<open>Collaborators that are not in the file\<close>

definition Thread_current :: "world \<Rightarrow> Thread option" where
  "Thread_current w = Some (current_thread w)"

text \<open>
  Modelled from the spec: \<^verbatim>\<open>JfrTicks::now\<close> is not among the sources. The spec stamps an
  event with "the current instant" and has later reads never earlier than former ones:
  the clock is a tick counter, and time passes by a natural number of ticks.
\<close>

definition JfrTicks_now :: "world \<Rightarrow> JfrTicks" where
  "JfrTicks_now w = ticks w"

definition elapse :: "nat \<Rightarrow> world \<Rightarrow> world" where
  "elapse d w = w\<lparr>ticks := ticks w + int d\<rparr>"

text \<open>
  Modelled from the spec: \<^verbatim>\<open>JfrSymbolTable::add\<close> is not among the sources. The spec has
  an event carry "an interned identifier for the provenance string (or a sentinel
  meaning none)": a string met before keeps its identifier, a new one takes the next
  identifier, counted from 1.
\<close>

definition JfrSymbolTable_add :: "string \<Rightarrow> world \<Rightarrow> traceid \<times> world" where
  "JfrSymbolTable_add str w =
     (case map_of (symbols w) str of
        Some sid \<Rightarrow> (sid, w)
      | None \<Rightarrow>
          (let sid = of_nat (length (symbols w)) + 1
           in (sid, w\<lparr>symbols := symbols w @ [(str, sid)]\<rparr>)))"

text \<open>
  Modelled from the spec: the event class and its \<^verbatim>\<open>commit\<close> are not among the sources.
  \<^verbatim>\<open>EventFinalizer event(UNTIMED)\<close> is an event with no field set; the sink "never
  rejects a well-formed event", so \<open>commit\<close> appends it to the events committed so far.
\<close>

definition EventFinalizer_UNTIMED :: EventFinalizer where
  "EventFinalizer_UNTIMED =
     \<lparr>endtime = None, overridingClass = None, codeSource = 0,
      ev_registered = 0, ev_enqueued = 0, ev_finalized = 0\<rparr>"

definition commit :: "EventFinalizer \<Rightarrow> world \<Rightarrow> world" where
  "commit event w = w\<lparr>committed := committed w @ [event]\<rparr>"

text \<open>
  Modelled from the spec: \<^verbatim>\<open>FinalizerTable::lookup\<close> and \<^verbatim>\<open>FinalizerTable::do_entries\<close>
  are not among the sources. \<open>find(type)\<close> is a point lookup that returns the entry of
  the type or none; \<open>forEach(callback)\<close> hands the callback one entry at a time, in the
  table's order, and the callback's return value signals "continue iterating".
\<close>

definition FinalizerTable_lookup ::
  "InstanceKlass option \<Rightarrow> Thread option \<Rightarrow> world \<Rightarrow> FinalizerEntry option" where
  "FinalizerTable_lookup ik thread w =
     (case ik of None \<Rightarrow> None | Some k \<Rightarrow> find (\<lambda>fe. klass fe = k) (table w))"

fun do_scan ::
  "(FinalizerEntry option \<Rightarrow> world \<Rightarrow> error + bool \<times> world) \<Rightarrow>
   FinalizerEntry list \<Rightarrow> world \<Rightarrow> error + world" where
  "do_scan f [] w = Inr w"
| "do_scan f (fe # fes) w =
     (case f (Some fe) w of
        Inl e \<Rightarrow> Inl e
      | Inr (continue, w') \<Rightarrow> if continue then do_scan f fes w' else Inr w')"

definition FinalizerTable_do_entries ::
  "(FinalizerEntry option \<Rightarrow> world \<Rightarrow> error + bool \<times> world) \<Rightarrow>
   Thread option \<Rightarrow> world \<Rightarrow> error + world" where
  "FinalizerTable_do_entries closure thread w = do_scan closure (table w) w"

subsection \<open>The provenance resolver\<close>

definition get_codesource :: "JavaRuntime \<Rightarrow> oop \<Rightarrow> Thread option \<Rightarrow> error + oop" where
  "get_codesource rt pd thread =
     (case pd of
        None \<Rightarrow> Inl Invariant
      | Some p \<Rightarrow>
          (case thread of
             None \<Rightarrow> Inl Invariant
           | Some t \<Rightarrow>
               Inr (get_field rt
                      \<lparr>args_klass = oop_klass rt p,
                       args_name = ''codesource'',
                       args_signature = ''Ljava/security/CodeSource;'',
                       args_receiver = pd\<rparr> t)))"

definition get_locationNoFragString ::
  "JavaRuntime \<Rightarrow> oop \<Rightarrow> Thread option \<Rightarrow> error + string option" where
  "get_locationNoFragString rt codesource thread =
     (case codesource of
        None \<Rightarrow> Inl Invariant
      | Some c \<Rightarrow>
          (case thread of
             None \<Rightarrow> Inl Invariant
           | Some t \<Rightarrow>
               (let string_oop =
                      get_field rt
                        \<lparr>args_klass = oop_klass rt c,
                         args_name = ''locationNoFragString'',
                         args_signature = ''Ljava/lang/String;'',
                         args_receiver = codesource\<rparr> t
                in case string_oop of
                     Some s \<Rightarrow> Inr (c_str rt s t)
                   | None \<Rightarrow> Inr None)))"

definition codesource ::
  "JavaRuntime \<Rightarrow> InstanceKlass option \<Rightarrow> Thread option \<Rightarrow> error + string option" where
  "codesource rt ik thread =
     (case ik of
        None \<Rightarrow> Inl Invariant
      | Some k \<Rightarrow>
          if thread = None then Inl Invariant
          else
            (let pd = protection_domain rt (java_mirror k)
             in if pd = None then Inr None
                else
                  (case get_codesource rt pd thread of
                     Inl e \<Rightarrow> Inl e
                   | Inr cs \<Rightarrow>
                       if cs \<noteq> None then get_locationNoFragString rt cs thread
                       else Inr None)))"

subsection \<open>Building and committing one event\<close>

definition send_event ::
  "FinalizerEntry option \<Rightarrow> InstanceKlass option \<Rightarrow> JfrTicks \<Rightarrow> Thread option \<Rightarrow>
   world \<Rightarrow> error + world" where
  "send_event fe ik timestamp thread w =
     (case ik of
        None \<Rightarrow> Inl Invariant
      | Some k \<Rightarrow>
          if \<not> has_finalizer k then Inl Invariant
          else if thread = None then Inl Invariant
          else
            (case codesource (runtime w) ik thread of
               Inl e \<Rightarrow> Inl e
             | Inr url \<Rightarrow>
                 (let (codesource_symbol_id, w1) =
                        (case url of
                           Some u \<Rightarrow> JfrSymbolTable_add u w
                         | None \<Rightarrow> (0, w));
                      event = EventFinalizer_UNTIMED;
                      event = event\<lparr>endtime := Some timestamp\<rparr>;
                      event = event\<lparr>overridingClass := ik\<rparr>;
                      event = event\<lparr>codeSource := codesource_symbol_id\<rparr>
                  in case fe of
                       None \<Rightarrow>
                         Inr (commit
                                (event\<lparr>ev_registered := 0, ev_enqueued := 0,
                                       ev_finalized := 0\<rparr>) w1)
                     | Some e \<Rightarrow>
                         if klass e \<noteq> k then Inl Invariant
                         else
                           Inr (commit
                                  (event\<lparr>ev_registered := registered e,
                                         ev_enqueued := enqueued e,
                                         ev_finalized := finalized e\<rparr>) w1))))"

subsection \<open>The unload path\<close>

definition send_unload_event :: "InstanceKlass option \<Rightarrow> world \<Rightarrow> error + world" where
  "send_unload_event ik w =
     (case ik of
        None \<Rightarrow> Inl Invariant
      | Some k \<Rightarrow>
          if \<not> has_finalizer k then Inl Invariant
          else
            (let thread = Thread_current w
             in send_event (FinalizerTable_lookup ik thread w) ik (JfrTicks_now w)
                  thread w))"

subsection \<open>The periodic sweep\<close>

definition FinalizerEventClosure_new :: "Thread option \<Rightarrow> world \<Rightarrow> FinalizerEventClosure" where
  "FinalizerEventClosure_new thread w =
     \<lparr>closure_thread = thread, closure_timestamp = JfrTicks_now w\<rparr>"

definition do_entry ::
  "FinalizerEventClosure \<Rightarrow> FinalizerEntry option \<Rightarrow> world \<Rightarrow> error + bool \<times> world" where
  "do_entry fec fe w =
     (case fe of
        None \<Rightarrow> Inl Invariant
      | Some e \<Rightarrow>
          (case send_event fe (Some (klass e)) (closure_timestamp fec)
                  (closure_thread fec) w of
             Inl err \<Rightarrow> Inl err
           | Inr w' \<Rightarrow> Inr (True, w')))"

definition generate_events :: "world \<Rightarrow> error + world" where
  "generate_events w =
     (let thread = Thread_current w;
          fec = FinalizerEventClosure_new thread w
      in FinalizerTable_do_entries (do_entry fec) thread w)"

subsection \<open>The resolver as the specification words it\<close>

text \<open>
  The specification's resolver, step by step, for comparison with \<open>codesource\<close>: read
  the type's protection context; read that context's code-source object; read the
  location string of the code source (the field, then its conversion to characters).
  A step that yields no value ends the chain with none.
\<close>

definition spec_protection_context :: "JavaRuntime \<Rightarrow> InstanceKlass \<Rightarrow> oop" where
  "spec_protection_context rt k = protection_domain rt (java_mirror k)"

definition spec_code_source :: "JavaRuntime \<Rightarrow> objref \<Rightarrow> Thread \<Rightarrow> oop" where
  "spec_code_source rt ctx t =
     get_field rt
       \<lparr>args_klass = oop_klass rt ctx, args_name = ''codesource'',
        args_signature = ''Ljava/security/CodeSource;'', args_receiver = Some ctx\<rparr> t"

definition spec_location :: "JavaRuntime \<Rightarrow> objref \<Rightarrow> Thread \<Rightarrow> string option" where
  "spec_location rt cs t =
     (case get_field rt
             \<lparr>args_klass = oop_klass rt cs, args_name = ''locationNoFragString'',
              args_signature = ''Ljava/lang/String;'', args_receiver = Some cs\<rparr> t of
        None \<Rightarrow> None
      | Some s \<Rightarrow> c_str rt s t)"

definition spec_resolve :: "JavaRuntime \<Rightarrow> InstanceKlass \<Rightarrow> Thread \<Rightarrow> string option" where
  "spec_resolve rt k t =
     (case spec_protection_context rt k of
        None \<Rightarrow> None
      | Some ctx \<Rightarrow>
          (case spec_code_source rt ctx t of
             None \<Rightarrow> None
           | Some cs \<Rightarrow> spec_location rt cs t))"

subsection \<open>Observations used in the statements\<close>

text \<open>The events a call has committed: what the sink holds beyond what it held before.\<close>

definition new_events :: "world \<Rightarrow> world \<Rightarrow> EventFinalizer list" where
  "new_events w w' = drop (length (committed w)) (committed w')"

text \<open>The counter invariant of the data model, on an entry and on an event.\<close>

definition entry_ordered :: "FinalizerEntry \<Rightarrow> bool" where
  "entry_ordered fe \<longleftrightarrow> 0 \<le> finalized fe \<and> finalized fe \<le> enqueued fe \<and> enqueued fe \<le> registered fe"

definition event_ordered :: "EventFinalizer \<Rightarrow> bool" where
  "event_ordered ev \<longleftrightarrow>
     0 \<le> ev_finalized ev \<and> ev_finalized ev \<le> ev_enqueued ev \<and> ev_enqueued ev \<le> ev_registered ev"

text \<open>
  What a sweep with closure \<open>fec\<close> has to commit for the entry \<open>fe\<close>: the closure's
  timestamp, the entry's class and counters, and the sentinel 0 as the code source when
  the resolver finds none for the class.
\<close>

definition sweep_rel ::
  "JavaRuntime \<Rightarrow> FinalizerEventClosure \<Rightarrow> FinalizerEntry \<Rightarrow> EventFinalizer \<Rightarrow> bool" where
  "sweep_rel rt fec fe ev \<longleftrightarrow>
     endtime ev = Some (closure_timestamp fec) \<and>
     overridingClass ev = Some (klass fe) \<and>
     ev_registered ev = registered fe \<and>
     ev_enqueued ev = enqueued fe \<and>
     ev_finalized ev = finalized fe \<and>
     (codesource rt (Some (klass fe)) (closure_thread fec) = Inr None \<longrightarrow> codeSource ev = 0)"

subsection \<open>A small world for the concrete checks\<close>

text \<open>
  Mirror 10 has a protection domain (20) whose code source (30) has the location string
  (40) \<open>file:/app.jar\<close>; no other mirror has a protection domain. The table tracks
  \<open>demo_klass_A\<close> (with provenance) and \<open>demo_klass_B\<close> (without);
  \<open>demo_klass_C\<close> (with provenance) and \<open>demo_klass_D\<close> (without) are not tracked.
\<close>

definition demo_runtime :: JavaRuntime where
  "demo_runtime =
     \<lparr>protection_domain = (\<lambda>mirror. if mirror = Some 10 then Some 20 else None),
      oop_klass = (\<lambda>obj. obj + 100),
      get_field =
        (\<lambda>args thread.
           if args_receiver args = Some 20 \<and> args_klass args = 120 \<and>
              args_name args = ''codesource'' \<and>
              args_signature args = ''Ljava/security/CodeSource;''
           then Some 30
           else if args_receiver args = Some 30 \<and> args_klass args = 130 \<and>
                   args_name args = ''locationNoFragString'' \<and>
                   args_signature args = ''Ljava/lang/String;''
           then Some 40
           else None),
      c_str = (\<lambda>s thread. if s = 40 then Some ''file:/app.jar'' else None)\<rparr>"

definition demo_klass_A :: InstanceKlass where
  "demo_klass_A = \<lparr>ik_id = 1, java_mirror = Some 10, has_finalizer = True\<rparr>"

definition demo_klass_B :: InstanceKlass where
  "demo_klass_B = \<lparr>ik_id = 2, java_mirror = Some 11, has_finalizer = True\<rparr>"

definition demo_klass_C :: InstanceKlass where
  "demo_klass_C = \<lparr>ik_id = 3, java_mirror = Some 10, has_finalizer = True\<rparr>"

definition demo_klass_D :: InstanceKlass where
  "demo_klass_D = \<lparr>ik_id = 4, java_mirror = Some 12, has_finalizer = True\<rparr>"

definition demo_table :: "FinalizerEntry list" where
  "demo_table =
     [\<lparr>klass = demo_klass_A, registered = 5, enqueued = 3, finalized = 2\<rparr>,
      \<lparr>klass = demo_klass_B, registered = 7, enqueued = 7, finalized = 1\<rparr>]"

definition demo_world :: world where
  "demo_world =
     \<lparr>runtime = demo_runtime, current_thread = 1, table = demo_table, ticks = 1000,
      symbols = [], committed = []\<rparr>"

lemmas demo_defs =
  demo_world_def demo_table_def demo_runtime_def
  demo_klass_A_def demo_klass_B_def demo_klass_C_def demo_klass_D_def

section \<open>What one call does\<close>

subsection \<open>The resolver and one event\<close>

lemma codesource_total:
  "\<exists>url. codesource rt (Some k) (Some t) = Inr url"
  by (simp add: codesource_def get_codesource_def get_locationNoFragString_def Let_def
      split: option.splits)

lemma JfrSymbolTable_add_frame:
  "runtime (snd (JfrSymbolTable_add u w)) = runtime w \<and>
   current_thread (snd (JfrSymbolTable_add u w)) = current_thread w \<and>
   table (snd (JfrSymbolTable_add u w)) = table w \<and>
   ticks (snd (JfrSymbolTable_add u w)) = ticks w \<and>
   committed (snd (JfrSymbolTable_add u w)) = committed w"
  by (simp add: JfrSymbolTable_add_def Let_def split: option.splits)

lemma send_event_Inr:
  assumes "send_event fe ik ts th w = Inr w'"
  shows "runtime w' = runtime w \<and> current_thread w' = current_thread w \<and>
         table w' = table w \<and> ticks w' = ticks w \<and>
         (\<exists>ev. committed w' = committed w @ [ev] \<and>
               endtime ev = Some ts \<and> overridingClass ev = ik \<and>
               ev_registered ev = (case fe of None \<Rightarrow> 0 | Some e \<Rightarrow> registered e) \<and>
               ev_enqueued ev = (case fe of None \<Rightarrow> 0 | Some e \<Rightarrow> enqueued e) \<and>
               ev_finalized ev = (case fe of None \<Rightarrow> 0 | Some e \<Rightarrow> finalized e) \<and>
               (codesource (runtime w) ik th = Inr None \<longrightarrow> codeSource ev = 0) \<and>
               (\<forall>u. codesource (runtime w) ik th = Inr (Some u) \<longrightarrow>
                    codeSource ev = fst (JfrSymbolTable_add u w)))"
proof -
  from assms obtain k url where ik: "ik = Some k"
    and cs: "codesource (runtime w) ik th = Inr url"
    by (auto simp: send_event_def split: option.splits if_splits sum.splits)
  define p where "p = (case url of Some u \<Rightarrow> JfrSymbolTable_add u w | None \<Rightarrow> (0, w))"
  have frame: "runtime (snd p) = runtime w \<and> current_thread (snd p) = current_thread w \<and>
      table (snd p) = table w \<and> ticks (snd p) = ticks w \<and> committed (snd p) = committed w"
    using JfrSymbolTable_add_frame by (simp add: p_def split: option.splits)
  have idn: "url = None \<longrightarrow> fst p = 0"
    and ids: "\<forall>u. url = Some u \<longrightarrow> fst p = fst (JfrSymbolTable_add u w)"
    by (simp_all add: p_def)
  from assms ik cs have
    "w' = commit \<lparr>endtime = Some ts, overridingClass = ik, codeSource = fst p,
                 ev_registered = (case fe of None \<Rightarrow> 0 | Some e \<Rightarrow> registered e),
                 ev_enqueued = (case fe of None \<Rightarrow> 0 | Some e \<Rightarrow> enqueued e),
                 ev_finalized = (case fe of None \<Rightarrow> 0 | Some e \<Rightarrow> finalized e)\<rparr> (snd p)"
    by (auto simp: send_event_def p_def EventFinalizer_UNTIMED_def Let_def
        split: option.splits if_splits prod.splits)
  with frame idn ids cs show ?thesis
    by (simp add: commit_def)
qed

lemma send_event_total:
  assumes "has_finalizer k" and "\<forall>e. fe = Some e \<longrightarrow> klass e = k"
  shows "\<exists>w'. send_event fe (Some k) ts (Some t) w = Inr w'"
proof -
  obtain url where "codesource (runtime w) (Some k) (Some t) = Inr url"
    using codesource_total by blast
  with assms show ?thesis
    by (cases fe) (simp_all add: send_event_def Let_def split: prod.splits)
qed

lemma do_entry_Inr:
  assumes "do_entry fec (Some e) w = Inr r"
  shows "fst r = True \<and>
         send_event (Some e) (Some (klass e)) (closure_timestamp fec) (closure_thread fec) w
           = Inr (snd r)"
  using assms by (auto simp: do_entry_def split: sum.splits)

lemma do_scan_do_entry_Inr:
  assumes "do_scan (do_entry fec) fes w = Inr w'"
  shows "runtime w' = runtime w \<and> current_thread w' = current_thread w \<and>
         table w' = table w \<and> ticks w' = ticks w \<and>
         (\<exists>evs. committed w' = committed w @ evs \<and>
            list_all2 (sweep_rel (runtime w) fec) fes evs)"
  using assms
proof (induction fes arbitrary: w)
  case Nil
  then show ?case by simp
next
  case (Cons fe fes)
  from Cons.prems obtain r where r: "do_entry fec (Some fe) w = Inr r"
    by (cases "do_entry fec (Some fe) w") auto
  from do_entry_Inr [OF r] have cont: "fst r = True"
    and se: "send_event (Some fe) (Some (klass fe)) (closure_timestamp fec)
               (closure_thread fec) w = Inr (snd r)"
    by simp_all
  from Cons.prems r cont have rest: "do_scan (do_entry fec) fes (snd r) = Inr w'"
    by (cases r) simp
  note step = send_event_Inr [OF se]
  note ih = Cons.IH [OF rest]
  from step obtain ev where ev: "committed (snd r) = committed w @ [ev]"
    and rel: "sweep_rel (runtime w) fec fe ev"
    unfolding sweep_rel_def by auto
  have rt: "runtime (snd r) = runtime w" using step by simp
  from ih obtain evs where evs: "committed w' = committed (snd r) @ evs"
    "list_all2 (sweep_rel (runtime w) fec) fes evs"
    unfolding rt by blast
  have c: "committed w' = committed w @ (ev # evs)" using ev evs(1) by simp
  have l: "list_all2 (sweep_rel (runtime w) fec) (fe # fes) (ev # evs)"
    using rel evs(2) by simp
  have f: "runtime w' = runtime w" "current_thread w' = current_thread w"
    "table w' = table w" "ticks w' = ticks w"
    using step ih by simp_all
  from f c l show ?case by blast
qed

lemma do_scan_do_entry_total:
  assumes "\<forall>fe\<in>set fes. has_finalizer (klass fe)"
  shows "\<exists>w'. do_scan (do_entry \<lparr>closure_thread = Some t, closure_timestamp = ts\<rparr>) fes w = Inr w'"
  using assms
proof (induction fes arbitrary: w)
  case Nil
  then show ?case by simp
next
  case (Cons fe fes)
  then have hf: "has_finalizer (klass fe)" by simp
  have same: "\<forall>e. Some fe = Some e \<longrightarrow> klass e = klass fe" by simp
  obtain w1 where "send_event (Some fe) (Some (klass fe)) ts (Some t) w = Inr w1"
    using send_event_total [OF hf same] by blast
  then have "do_entry \<lparr>closure_thread = Some t, closure_timestamp = ts\<rparr> (Some fe) w = Inr (True, w1)"
    by (simp add: do_entry_def)
  moreover obtain w' where
    "do_scan (do_entry \<lparr>closure_thread = Some t, closure_timestamp = ts\<rparr>) fes w1 = Inr w'"
    using Cons.IH [of w1] Cons.prems by auto
  ultimately show ?case by simp
qed

lemma generate_events_Inr:
  assumes "generate_events w = Inr w'"
  shows "runtime w' = runtime w \<and> current_thread w' = current_thread w \<and>
         table w' = table w \<and> ticks w' = ticks w \<and>
         committed w' = committed w @ new_events w w' \<and>
         list_all2
           (sweep_rel (runtime w)
              \<lparr>closure_thread = Thread_current w, closure_timestamp = JfrTicks_now w\<rparr>)
           (table w) (new_events w w')"
proof -
  let ?fec = "\<lparr>closure_thread = Thread_current w, closure_timestamp = JfrTicks_now w\<rparr>"
  from assms have "do_scan (do_entry ?fec) (table w) w = Inr w'"
    by (simp add: generate_events_def FinalizerTable_do_entries_def
        FinalizerEventClosure_new_def Let_def)
  from do_scan_do_entry_Inr [OF this] show ?thesis
    by (auto simp: new_events_def)
qed

lemma generate_events_total:
  assumes "\<forall>fe\<in>set (table w). has_finalizer (klass fe)"
  shows "\<exists>w'. generate_events w = Inr w'"
  using do_scan_do_entry_total [OF assms, of "current_thread w" "JfrTicks_now w" w]
  by (simp add: generate_events_def FinalizerTable_do_entries_def
      FinalizerEventClosure_new_def Thread_current_def Let_def)

lemma FinalizerTable_lookup_Some:
  assumes "FinalizerTable_lookup (Some k) th w = Some e"
  shows "klass e = k \<and> e \<in> set (table w)"
  using assms by (auto simp: FinalizerTable_lookup_def find_Some_iff)

lemma send_unload_event_total:
  assumes "has_finalizer k"
  shows "\<exists>w'. send_unload_event (Some k) w = Inr w'"
proof -
  have "\<forall>e. FinalizerTable_lookup (Some k) (Thread_current w) w = Some e \<longrightarrow> klass e = k"
    using FinalizerTable_lookup_Some by blast
  from send_event_total [OF assms this, of "JfrTicks_now w" "current_thread w" w]
  show ?thesis using assms
    by (simp add: send_unload_event_def Thread_current_def Let_def)
qed

lemma send_unload_event_Inr:
  assumes "send_unload_event ik w = Inr w'"
  shows "send_event (FinalizerTable_lookup ik (Thread_current w) w) ik (JfrTicks_now w)
           (Thread_current w) w = Inr w'"
  using assms by (auto simp: send_unload_event_def Let_def split: option.splits if_splits)

section \<open>Properties of the two paths\<close>

subsection \<open>The concrete runs\<close>

lemma generate_events_demo:
  "generate_events demo_world =
     Inr (demo_world
           \<lparr>symbols := [(''file:/app.jar'', 1)],
            committed :=
              [\<lparr>endtime = Some 1000, overridingClass = Some demo_klass_A, codeSource = 1,
                ev_registered = 5, ev_enqueued = 3, ev_finalized = 2\<rparr>,
               \<lparr>endtime = Some 1000, overridingClass = Some demo_klass_B, codeSource = 0,
                ev_registered = 7, ev_enqueued = 7, ev_finalized = 1\<rparr>]\<rparr>)"
  by (simp add: demo_defs generate_events_def FinalizerTable_do_entries_def
      FinalizerEventClosure_new_def do_entry_def send_event_def codesource_def
      get_codesource_def get_locationNoFragString_def Thread_current_def JfrTicks_now_def
      JfrSymbolTable_add_def commit_def EventFinalizer_UNTIMED_def)

subsection \<open>The sweep\<close>

text \<open>
  C1. A sweep over a table of N entries (each of a class with a finalizer, as the
  assertion of \<open>send_event\<close> requires) completes and commits exactly N events, in the
  table's order: every event carries the one timestamp read before the traversal, and
  the i-th event carries the class and the three counters of the i-th entry.
\<close>

theorem generate_events_one_event_per_entry:
  assumes "\<forall>fe\<in>set (table w). has_finalizer (klass fe)"
  shows "\<exists>w'. generate_events w = Inr w' \<and>
           committed w' = committed w @ new_events w w' \<and>
           length (new_events w w') = length (table w) \<and>
           (\<forall>ev\<in>set (new_events w w'). endtime ev = Some (JfrTicks_now w)) \<and>
           (\<forall>i<length (table w).
              overridingClass (new_events w w' ! i) = Some (klass (table w ! i)) \<and>
              ev_registered (new_events w w' ! i) = registered (table w ! i) \<and>
              ev_enqueued (new_events w w' ! i) = enqueued (table w ! i) \<and>
              ev_finalized (new_events w w' ! i) = finalized (table w ! i))"
proof -
  let ?fec = "\<lparr>closure_thread = Thread_current w, closure_timestamp = JfrTicks_now w\<rparr>"
  obtain w' where run: "generate_events w = Inr w'"
    using generate_events_total [OF assms] by blast
  note r = generate_events_Inr [OF run]
  from r have app: "committed w' = committed w @ new_events w w'" by simp
  from r have rel: "list_all2 (sweep_rel (runtime w) ?fec) (table w) (new_events w w')"
    by simp
  have len: "length (new_events w w') = length (table w)"
    using list_all2_lengthD [OF rel] by simp
  have nth: "sweep_rel (runtime w) ?fec (table w ! i) (new_events w w' ! i)"
    if "i < length (table w)" for i
    using list_all2_nthD [OF rel that] .
  have stamp: "endtime ev = Some (JfrTicks_now w)" if "ev \<in> set (new_events w w')" for ev
  proof -
    from that obtain i where "i < length (new_events w w')" "ev = new_events w w' ! i"
      by (auto simp: in_set_conv_nth)
    with nth [of i] len show ?thesis by (simp add: sweep_rel_def)
  qed
  have each: "overridingClass (new_events w w' ! i) = Some (klass (table w ! i)) \<and>
              ev_registered (new_events w w' ! i) = registered (table w ! i) \<and>
              ev_enqueued (new_events w w' ! i) = enqueued (table w ! i) \<and>
              ev_finalized (new_events w w' ! i) = finalized (table w ! i)"
    if "i < length (table w)" for i
    using nth [OF that] by (simp add: sweep_rel_def)
  from run app len stamp each show ?thesis by blast
qed

text \<open>The demo table: two entries, two events stamped 1000, counters (5, 3, 2) and (7, 7, 1).\<close>

theorem generate_events_one_event_per_entry_witness:
  "list_all (\<lambda>fe. has_finalizer (klass fe)) (table demo_world) \<and>
   (\<exists>w'. generate_events demo_world = Inr w' \<and>
      length (new_events demo_world w') = 2 \<and>
      (\<forall>ev\<in>set (new_events demo_world w'). endtime ev = Some 1000) \<and>
      ev_registered (new_events demo_world w' ! 0) = 5 \<and>
      ev_enqueued (new_events demo_world w' ! 0) = 3 \<and>
      ev_finalized (new_events demo_world w' ! 0) = 2 \<and>
      ev_registered (new_events demo_world w' ! 1) = 7 \<and>
      ev_enqueued (new_events demo_world w' ! 1) = 7 \<and>
      ev_finalized (new_events demo_world w' ! 1) = 1)"
proof -
  have h: "\<forall>fe\<in>set (table demo_world). has_finalizer (klass fe)"
    by (simp add: demo_defs)
  from generate_events_one_event_per_entry [OF h] obtain w' where
    w': "generate_events demo_world = Inr w'"
      "length (new_events demo_world w') = length (table demo_world)"
      "\<forall>ev\<in>set (new_events demo_world w'). endtime ev = Some (JfrTicks_now demo_world)"
      "\<forall>i<length (table demo_world).
              overridingClass (new_events demo_world w' ! i) = Some (klass (table demo_world ! i)) \<and>
              ev_registered (new_events demo_world w' ! i) = registered (table demo_world ! i) \<and>
              ev_enqueued (new_events demo_world w' ! i) = enqueued (table demo_world ! i) \<and>
              ev_finalized (new_events demo_world w' ! i) = finalized (table demo_world ! i)"
    by blast
  have t: "table demo_world =
     [\<lparr>klass = demo_klass_A, registered = 5, enqueued = 3, finalized = 2\<rparr>,
      \<lparr>klass = demo_klass_B, registered = 7, enqueued = 7, finalized = 1\<rparr>]"
    "JfrTicks_now demo_world = 1000"
    by (simp_all add: demo_world_def demo_table_def JfrTicks_now_def)
  have "ev_registered (new_events demo_world w' ! 0) = 5 \<and>
      ev_enqueued (new_events demo_world w' ! 0) = 3 \<and>
      ev_finalized (new_events demo_world w' ! 0) = 2 \<and>
      ev_registered (new_events demo_world w' ! 1) = 7 \<and>
      ev_enqueued (new_events demo_world w' ! 1) = 7 \<and>
      ev_finalized (new_events demo_world w' ! 1) = 1"
    using spec [OF w'(4), of 0] spec [OF w'(4), of 1] unfolding t by simp
  with h w'(1,2,3) show ?thesis unfolding t by (auto simp: list_all_iff)
qed

subsection \<open>The unload path\<close>

lemma new_events_single:
  "committed w' = committed w @ [ev] \<Longrightarrow> new_events w w' = [ev]"
  by (simp add: new_events_def)

text \<open>
  C2. For a class with a finalizer (the asserted precondition of
  \<open>send_unload_event\<close>) whose lookup in the table finds the entry \<open>fe\<close>, the call
  completes and commits exactly one event; the event names the class, and its
  registered, enqueued and finalized fields are the three counters of \<open>fe\<close>.
\<close>

theorem send_unload_event_tracked:
  assumes "has_finalizer k"
    and "FinalizerTable_lookup (Some k) (Thread_current w) w = Some fe"
  shows "\<exists>w' ev. send_unload_event (Some k) w = Inr w' \<and>
           new_events w w' = [ev] \<and>
           overridingClass ev = Some k \<and>
           ev_registered ev = registered fe \<and>
           ev_enqueued ev = enqueued fe \<and>
           ev_finalized ev = finalized fe"
proof -
  obtain w' where run: "send_unload_event (Some k) w = Inr w'"
    using send_unload_event_total [OF assms(1)] by blast
  from send_unload_event_Inr [OF run] assms(2)
  have "send_event (Some fe) (Some k) (JfrTicks_now w) (Thread_current w) w = Inr w'"
    by simp
  from send_event_Inr [OF this] obtain ev where
    "committed w' = committed w @ [ev]" "overridingClass ev = Some k"
    "ev_registered ev = registered fe" "ev_enqueued ev = enqueued fe"
    "ev_finalized ev = finalized fe"
    by auto
  with run new_events_single show ?thesis by blast
qed

text \<open>The entry (5, 3, 2) of \<open>demo_klass_A\<close> gives one event with 5, 3 and 2.\<close>

theorem send_unload_event_tracked_witness:
  "has_finalizer demo_klass_A \<and>
   FinalizerTable_lookup (Some demo_klass_A) (Thread_current demo_world) demo_world =
     Some \<lparr>klass = demo_klass_A, registered = 5, enqueued = 3, finalized = 2\<rparr> \<and>
   (\<exists>w' ev. send_unload_event (Some demo_klass_A) demo_world = Inr w' \<and>
      new_events demo_world w' = [ev] \<and>
      ev_registered ev = 5 \<and> ev_enqueued ev = 3 \<and> ev_finalized ev = 2)"
proof -
  have h1: "has_finalizer demo_klass_A"
    by (simp add: demo_klass_A_def)
  have h2: "FinalizerTable_lookup (Some demo_klass_A) (Thread_current demo_world) demo_world =
     Some \<lparr>klass = demo_klass_A, registered = 5, enqueued = 3, finalized = 2\<rparr>"
    by (simp add: FinalizerTable_lookup_def demo_world_def demo_table_def)
  from send_unload_event_tracked [OF h1 h2] h1 h2 show ?thesis
    by auto
qed

text \<open>
  C3. For a class with a finalizer whose lookup in the table finds no entry, the call
  does not fail: it completes and commits exactly one event, for that class, whose
  registered, enqueued and finalized counters are all zero.
\<close>

theorem send_unload_event_untracked:
  assumes "has_finalizer k"
    and "FinalizerTable_lookup (Some k) (Thread_current w) w = None"
  shows "\<exists>w' ev. send_unload_event (Some k) w = Inr w' \<and>
           new_events w w' = [ev] \<and>
           overridingClass ev = Some k \<and>
           ev_registered ev = 0 \<and> ev_enqueued ev = 0 \<and> ev_finalized ev = 0"
proof -
  obtain w' where run: "send_unload_event (Some k) w = Inr w'"
    using send_unload_event_total [OF assms(1)] by blast
  from send_unload_event_Inr [OF run] assms(2)
  have "send_event None (Some k) (JfrTicks_now w) (Thread_current w) w = Inr w'"
    by simp
  from send_event_Inr [OF this] obtain ev where
    "committed w' = committed w @ [ev]" "overridingClass ev = Some k"
    "ev_registered ev = 0" "ev_enqueued ev = 0" "ev_finalized ev = 0"
    by auto
  with run new_events_single show ?thesis by blast
qed

text \<open>\<open>demo_klass_D\<close> is not in the table: one event, counters 0, 0, 0.\<close>

theorem send_unload_event_untracked_witness:
  "has_finalizer demo_klass_D \<and>
   FinalizerTable_lookup (Some demo_klass_D) (Thread_current demo_world) demo_world = None \<and>
   (\<exists>w' ev. send_unload_event (Some demo_klass_D) demo_world = Inr w' \<and>
      new_events demo_world w' = [ev] \<and>
      overridingClass ev = Some demo_klass_D \<and>
      ev_registered ev = 0 \<and> ev_enqueued ev = 0 \<and> ev_finalized ev = 0)"
proof -
  have h1: "has_finalizer demo_klass_D"
    by (simp add: demo_klass_D_def)
  have h2: "FinalizerTable_lookup (Some demo_klass_D) (Thread_current demo_world) demo_world = None"
    by (simp add: FinalizerTable_lookup_def demo_defs)
  from send_unload_event_untracked [OF h1 h2] h1 h2 show ?thesis
    by simp
qed

text \<open>
  C4, as amended. For a class with a finalizer and no entry in the table, the call
  commits exactly one event with all three counters zero. Its code source does not
  depend on the table: it is the sentinel 0 when the resolver returns none for the
  class, and the identifier the symbol table gives the resolved location otherwise.
\<close>

theorem unload_without_entry_provenance:
  assumes "has_finalizer k"
    and "FinalizerTable_lookup (Some k) (Thread_current w) w = None"
  shows "\<exists>w' ev. send_unload_event (Some k) w = Inr w' \<and>
           new_events w w' = [ev] \<and>
           ev_registered ev = 0 \<and> ev_enqueued ev = 0 \<and> ev_finalized ev = 0 \<and>
           (codesource (runtime w) (Some k) (Thread_current w) = Inr None \<longrightarrow>
              codeSource ev = 0) \<and>
           (\<forall>url. codesource (runtime w) (Some k) (Thread_current w) = Inr (Some url) \<longrightarrow>
              codeSource ev = fst (JfrSymbolTable_add url w))"
proof -
  obtain w' where run: "send_unload_event (Some k) w = Inr w'"
    using send_unload_event_total [OF assms(1)] by blast
  from send_unload_event_Inr [OF run] assms(2)
  have "send_event None (Some k) (JfrTicks_now w) (Thread_current w) w = Inr w'"
    by simp
  from send_event_Inr [OF this] obtain ev where
    "committed w' = committed w @ [ev]"
    "ev_registered ev = 0" "ev_enqueued ev = 0" "ev_finalized ev = 0"
    "codesource (runtime w) (Some k) (Thread_current w) = Inr None \<longrightarrow> codeSource ev = 0"
    "\<forall>url. codesource (runtime w) (Some k) (Thread_current w) = Inr (Some url) \<longrightarrow>
       codeSource ev = fst (JfrSymbolTable_add url w)"
    by auto
  with run new_events_single show ?thesis by blast
qed

text \<open>
  C4 as it was stated fails: \<open>demo_klass_C\<close> has no entry, the resolver finds the
  location \<open>file:/app.jar\<close> for it, and the one event committed carries the code
  source 1, not the sentinel.
\<close>

theorem unload_without_entry_provenance_counterexample:
  "has_finalizer demo_klass_C \<and>
   FinalizerTable_lookup (Some demo_klass_C) (Thread_current demo_world) demo_world = None \<and>
   codesource (runtime demo_world) (Some demo_klass_C) (Thread_current demo_world) =
     Inr (Some ''file:/app.jar'') \<and>
   send_unload_event (Some demo_klass_C) demo_world =
     Inr (demo_world
           \<lparr>symbols := [(''file:/app.jar'', 1)],
            committed :=
              [\<lparr>endtime = Some 1000, overridingClass = Some demo_klass_C, codeSource = 1,
                ev_registered = 0, ev_enqueued = 0, ev_finalized = 0\<rparr>]\<rparr>)"
  by (simp add: demo_defs send_unload_event_def send_event_def codesource_def
      get_codesource_def get_locationNoFragString_def FinalizerTable_lookup_def
      Thread_current_def JfrTicks_now_def JfrSymbolTable_add_def commit_def
      EventFinalizer_UNTIMED_def)

text \<open>The amended statement at the same class: counters zero, code source 1.\<close>

theorem unload_without_entry_provenance_witness:
  "has_finalizer demo_klass_C \<and>
   FinalizerTable_lookup (Some demo_klass_C) (Thread_current demo_world) demo_world = None \<and>
   (\<exists>w' ev. send_unload_event (Some demo_klass_C) demo_world = Inr w' \<and>
      new_events demo_world w' = [ev] \<and>
      ev_registered ev = 0 \<and> ev_enqueued ev = 0 \<and> ev_finalized ev = 0 \<and>
      codeSource ev = 1)"
proof -
  have h1: "has_finalizer demo_klass_C"
    by (simp add: demo_klass_C_def)
  have h2: "FinalizerTable_lookup (Some demo_klass_C) (Thread_current demo_world) demo_world = None"
    by (simp add: FinalizerTable_lookup_def demo_defs)
  have url: "codesource (runtime demo_world) (Some demo_klass_C) (Thread_current demo_world) =
     Inr (Some ''file:/app.jar'')"
    by (simp add: demo_defs codesource_def get_codesource_def get_locationNoFragString_def
        Thread_current_def)
  have sid: "fst (JfrSymbolTable_add ''file:/app.jar'' demo_world) = 1"
    by (simp add: JfrSymbolTable_add_def demo_world_def)
  from unload_without_entry_provenance [OF h1 h2] url sid h1 h2 show ?thesis
    by auto
qed

subsection \<open>The provenance resolver\<close>

lemma codesource_resolve:
  "codesource rt (Some k) (Some t) = Inr (spec_resolve rt k t)"
  by (simp add: codesource_def get_codesource_def get_locationNoFragString_def Let_def
      spec_resolve_def spec_protection_context_def spec_code_source_def spec_location_def
      split: option.splits)

text \<open>
  C5. For a class and a thread (both non-null), \<open>codesource\<close> never fails an assertion
  and computes the resolver of the specification. It returns none exactly when the
  chain breaks at one of its three steps: no protection context, or no code-source
  object in that context, or no value for the location string of the code source.
  When all three steps yield a value, it returns that location string.
\<close>

theorem codesource_none_iff_chain_breaks:
  "codesource rt (Some k) (Some t) = Inr (spec_resolve rt k t) \<and>
   (codesource rt (Some k) (Some t) = Inr None \<longleftrightarrow>
      spec_protection_context rt k = None \<or>
      (\<exists>ctx. spec_protection_context rt k = Some ctx \<and> spec_code_source rt ctx t = None) \<or>
      (\<exists>ctx cs. spec_protection_context rt k = Some ctx \<and>
         spec_code_source rt ctx t = Some cs \<and> spec_location rt cs t = None)) \<and>
   (\<forall>ctx cs url.
      spec_protection_context rt k = Some ctx \<longrightarrow>
      spec_code_source rt ctx t = Some cs \<longrightarrow>
      spec_location rt cs t = Some url \<longrightarrow>
      codesource rt (Some k) (Some t) = Inr (Some url))"
proof (intro conjI)
  show "codesource rt (Some k) (Some t) = Inr (spec_resolve rt k t)"
    by (rule codesource_resolve)
  show "codesource rt (Some k) (Some t) = Inr None \<longleftrightarrow>
      spec_protection_context rt k = None \<or>
      (\<exists>ctx. spec_protection_context rt k = Some ctx \<and> spec_code_source rt ctx t = None) \<or>
      (\<exists>ctx cs. spec_protection_context rt k = Some ctx \<and>
         spec_code_source rt ctx t = Some cs \<and> spec_location rt cs t = None)"
    unfolding codesource_resolve
    by (auto simp: spec_resolve_def split: option.splits)
  show "\<forall>ctx cs url.
      spec_protection_context rt k = Some ctx \<longrightarrow>
      spec_code_source rt ctx t = Some cs \<longrightarrow>
      spec_location rt cs t = Some url \<longrightarrow>
      codesource rt (Some k) (Some t) = Inr (Some url)"
    unfolding codesource_resolve
    by (simp add: spec_resolve_def)
qed

text \<open>
  \<open>demo_klass_A\<close> passes the three steps and resolves to \<open>file:/app.jar\<close>;
  \<open>demo_klass_B\<close> has no protection context and resolves to none.
\<close>

theorem codesource_none_iff_chain_breaks_witness:
  "spec_protection_context demo_runtime demo_klass_A = Some 20 \<and>
   spec_code_source demo_runtime 20 1 = Some 30 \<and>
   spec_location demo_runtime 30 1 = Some ''file:/app.jar'' \<and>
   codesource demo_runtime (Some demo_klass_A) (Some 1) = Inr (Some ''file:/app.jar'') \<and>
   spec_protection_context demo_runtime demo_klass_B = None \<and>
   codesource demo_runtime (Some demo_klass_B) (Some 1) = Inr None"
proof -
  have a: "spec_protection_context demo_runtime demo_klass_A = Some 20"
    by (simp add: spec_protection_context_def demo_runtime_def demo_klass_A_def)
  have b: "spec_code_source demo_runtime 20 1 = Some 30"
    by (simp add: spec_code_source_def demo_runtime_def)
  have c: "spec_location demo_runtime 30 1 = Some ''file:/app.jar''"
    by (simp add: spec_location_def demo_runtime_def)
  have d: "spec_protection_context demo_runtime demo_klass_B = None"
    by (simp add: spec_protection_context_def demo_runtime_def demo_klass_B_def)
  note A = codesource_none_iff_chain_breaks [of demo_runtime demo_klass_A 1]
  note B = codesource_none_iff_chain_breaks [of demo_runtime demo_klass_B 1]
  from A a b c have "codesource demo_runtime (Some demo_klass_A) (Some 1) = Inr (Some ''file:/app.jar'')"
    by blast
  moreover from B d have "codesource demo_runtime (Some demo_klass_B) (Some 1) = Inr None"
    by blast
  ultimately show ?thesis using a b c d by simp
qed

text \<open>
  C10. Each helper asserts that its object is non-null: handed \<^verbatim>\<open>NULL\<close>, it fails the
  invariant. \<open>codesource\<close> calls \<open>get_codesource\<close> only on a protection domain that is
  not null and \<open>get_locationNoFragString\<close> only on a code source that is not null, and
  the string conversion is applied only to a string oop that is not null; the three
  null cases are the three guarded returns of none. So, for a class and a thread,
  no assertion of the resolver fails.
\<close>

theorem codesource_helper_preconditions:
  "get_codesource rt None thread = Inl Invariant \<and>
   get_locationNoFragString rt None thread = Inl Invariant \<and>
   get_codesource rt (Some pd) (Some t) =
     Inr (get_field rt
            \<lparr>args_klass = oop_klass rt pd, args_name = ''codesource'',
             args_signature = ''Ljava/security/CodeSource;'', args_receiver = Some pd\<rparr> t) \<and>
   get_locationNoFragString rt (Some cs) (Some t) =
     (case get_field rt
             \<lparr>args_klass = oop_klass rt cs, args_name = ''locationNoFragString'',
              args_signature = ''Ljava/lang/String;'', args_receiver = Some cs\<rparr> t of
        None \<Rightarrow> Inr None
      | Some s \<Rightarrow> Inr (c_str rt s t)) \<and>
   codesource rt (Some k) (Some t) =
     (case protection_domain rt (java_mirror k) of
        None \<Rightarrow> Inr None
      | Some p \<Rightarrow>
          (case get_codesource rt (Some p) (Some t) of
             Inl e \<Rightarrow> Inl e
           | Inr None \<Rightarrow> Inr None
           | Inr (Some c) \<Rightarrow> get_locationNoFragString rt (Some c) (Some t))) \<and>
   codesource rt (Some k) (Some t) \<noteq> Inl Invariant"
proof (intro conjI)
  show "get_codesource rt None thread = Inl Invariant"
    by (simp add: get_codesource_def)
  show "get_locationNoFragString rt None thread = Inl Invariant"
    by (simp add: get_locationNoFragString_def)
  show "get_codesource rt (Some pd) (Some t) =
     Inr (get_field rt
            \<lparr>args_klass = oop_klass rt pd, args_name = ''codesource'',
             args_signature = ''Ljava/security/CodeSource;'', args_receiver = Some pd\<rparr> t)"
    by (simp add: get_codesource_def)
  show "get_locationNoFragString rt (Some cs) (Some t) =
     (case get_field rt
             \<lparr>args_klass = oop_klass rt cs, args_name = ''locationNoFragString'',
              args_signature = ''Ljava/lang/String;'', args_receiver = Some cs\<rparr> t of
        None \<Rightarrow> Inr None
      | Some s \<Rightarrow> Inr (c_str rt s t))"
    by (simp add: get_locationNoFragString_def split: option.splits)
  show "codesource rt (Some k) (Some t) =
     (case protection_domain rt (java_mirror k) of
        None \<Rightarrow> Inr None
      | Some p \<Rightarrow>
          (case get_codesource rt (Some p) (Some t) of
             Inl e \<Rightarrow> Inl e
           | Inr None \<Rightarrow> Inr None
           | Inr (Some c) \<Rightarrow> get_locationNoFragString rt (Some c) (Some t)))"
    by (simp add: codesource_def get_codesource_def Let_def split: option.splits)
  show "codesource rt (Some k) (Some t) \<noteq> Inl Invariant"
    using codesource_total [of rt k t] by auto
qed

text \<open>The helpers and the resolver on the demo objects.\<close>

theorem codesource_helper_preconditions_witness:
  "get_codesource demo_runtime None (Some 1) = Inl Invariant \<and>
   get_locationNoFragString demo_runtime None (Some 1) = Inl Invariant \<and>
   get_codesource demo_runtime (Some 20) (Some 1) = Inr (Some 30) \<and>
   get_locationNoFragString demo_runtime (Some 30) (Some 1) = Inr (Some ''file:/app.jar'') \<and>
   codesource demo_runtime (Some demo_klass_A) (Some 1) = Inr (Some ''file:/app.jar'')"
  using codesource_helper_preconditions [of demo_runtime "Some 1" 20 1 30 demo_klass_A]
  by (simp add: demo_runtime_def demo_klass_A_def)

subsection \<open>The sweep, entry by entry\<close>

lemma generate_events_nth:
  assumes "generate_events w = Inr w'"
  shows "length (new_events w w') = length (table w)"
    and "i < length (table w) \<Longrightarrow>
         sweep_rel (runtime w)
           \<lparr>closure_thread = Thread_current w, closure_timestamp = JfrTicks_now w\<rparr>
           (table w ! i) (new_events w w' ! i)"
proof -
  let ?fec = "\<lparr>closure_thread = Thread_current w, closure_timestamp = JfrTicks_now w\<rparr>"
  from generate_events_Inr [OF assms]
  have rel: "list_all2 (sweep_rel (runtime w) ?fec) (table w) (new_events w w')"
    by simp
  show "length (new_events w w') = length (table w)"
    using list_all2_lengthD [OF rel] by simp
  show "sweep_rel (runtime w) ?fec (table w ! i) (new_events w w' ! i)"
    if "i < length (table w)"
    using list_all2_nthD [OF rel that] .
qed

lemma generate_events_set:
  assumes "generate_events w = Inr w'" and "ev \<in> set (new_events w w')"
  shows "\<exists>fe\<in>set (table w).
           sweep_rel (runtime w)
             \<lparr>closure_thread = Thread_current w, closure_timestamp = JfrTicks_now w\<rparr> fe ev"
proof -
  from assms(2) obtain i where i: "i < length (new_events w w')" "ev = new_events w w' ! i"
    by (auto simp: in_set_conv_nth)
  with generate_events_nth [OF assms(1)] have lt: "i < length (table w)" by simp
  then have "table w ! i \<in> set (table w)" by simp
  with generate_events_nth(2) [OF assms(1) lt] i(2) show ?thesis
    by blast
qed

text \<open>
  C6. In a sweep (over entries of classes with finalizers), an entry whose class
  resolves to no provenance is not skipped: the sweep completes with one event per
  entry, and the event at that entry's position names its class and carries the
  sentinel 0 as its code source. The callback \<open>do_entry\<close>, whenever it returns, signals
  "continue", so no entry stops the traversal.
\<close>

theorem generate_events_keeps_entries_without_provenance:
  assumes "\<forall>fe\<in>set (table w). has_finalizer (klass fe)"
  shows "\<exists>w'. generate_events w = Inr w' \<and>
           length (new_events w w') = length (table w) \<and>
           (\<forall>i<length (table w).
              codesource (runtime w) (Some (klass (table w ! i))) (Thread_current w) = Inr None \<longrightarrow>
              overridingClass (new_events w w' ! i) = Some (klass (table w ! i)) \<and>
              codeSource (new_events w w' ! i) = 0) \<and>
           (\<forall>fec fe w0 r. do_entry fec fe w0 = Inr r \<longrightarrow> fst r = True)"
proof -
  obtain w' where run: "generate_events w = Inr w'"
    using generate_events_total [OF assms] by blast
  have len: "length (new_events w w') = length (table w)"
    by (rule generate_events_nth(1) [OF run])
  have each: "codesource (runtime w) (Some (klass (table w ! i))) (Thread_current w) = Inr None \<longrightarrow>
              overridingClass (new_events w w' ! i) = Some (klass (table w ! i)) \<and>
              codeSource (new_events w w' ! i) = 0"
    if "i < length (table w)" for i
    using generate_events_nth(2) [OF run that] by (simp add: sweep_rel_def)
  have cont: "fst r = True" if "do_entry fec fe w0 = Inr r" for fec fe w0 r
  proof (cases fe)
    case None
    with that show ?thesis by (simp add: do_entry_def)
  next
    case (Some e)
    with that do_entry_Inr [of fec e w0 r] show ?thesis by simp
  qed
  from run len each cont show ?thesis by blast
qed

text \<open>
  The second entry of the demo table, \<open>demo_klass_B\<close>, has no provenance: the sweep
  still commits two events, and the second has code source 0.
\<close>

theorem generate_events_keeps_entries_without_provenance_witness:
  "list_all (\<lambda>fe. has_finalizer (klass fe)) (table demo_world) \<and>
   codesource (runtime demo_world) (Some (klass (table demo_world ! 1)))
     (Thread_current demo_world) = Inr None \<and>
   (\<exists>w'. generate_events demo_world = Inr w' \<and>
      length (new_events demo_world w') = 2 \<and>
      overridingClass (new_events demo_world w' ! 1) = Some demo_klass_B \<and>
      codeSource (new_events demo_world w' ! 1) = 0)"
proof -
  have h: "\<forall>fe\<in>set (table demo_world). has_finalizer (klass fe)"
    by (simp add: demo_defs)
  have none: "codesource (runtime demo_world) (Some (klass (table demo_world ! 1)))
     (Thread_current demo_world) = Inr None"
    by (simp add: demo_defs codesource_def Thread_current_def)
  have t: "length (table demo_world) = 2" "klass (table demo_world ! 1) = demo_klass_B"
    by (simp_all add: demo_world_def demo_table_def)
  from generate_events_keeps_entries_without_provenance [OF h] obtain w' where
    w': "generate_events demo_world = Inr w'"
      "length (new_events demo_world w') = length (table demo_world)"
      "\<forall>i<length (table demo_world).
         codesource (runtime demo_world) (Some (klass (table demo_world ! i)))
           (Thread_current demo_world) = Inr None \<longrightarrow>
         overridingClass (new_events demo_world w' ! i) = Some (klass (table demo_world ! i)) \<and>
         codeSource (new_events demo_world w' ! i) = 0"
    by blast
  from spec [OF w'(3), of 1] none t
  have "overridingClass (new_events demo_world w' ! 1) = Some demo_klass_B \<and>
        codeSource (new_events demo_world w' ! 1) = 0"
    by simp
  with h none w'(1,2) t show ?thesis by (auto simp: list_all_iff)
qed

text \<open>
  C7. The sweep only reads the table: after a sweep that returns, and after each visit
  of the callback, the table (every entry's class and its registered, enqueued and
  finalized counters) is what it was before. A sweep over entries of classes with
  finalizers does return.
\<close>

theorem generate_events_read_only:
  "(\<forall>w'. generate_events w = Inr w' \<longrightarrow> table w' = table w) \<and>
   (\<forall>fec fe c w1. do_entry fec fe w = Inr (c, w1) \<longrightarrow> table w1 = table w) \<and>
   ((\<forall>fe\<in>set (table w). has_finalizer (klass fe)) \<longrightarrow> (\<exists>w'. generate_events w = Inr w'))"
proof (intro conjI allI impI)
  fix w' assume "generate_events w = Inr w'"
  from generate_events_Inr [OF this] show "table w' = table w" by simp
next
  fix fec fe c w1 assume run: "do_entry fec fe w = Inr (c, w1)"
  then obtain e where fe: "fe = Some e" by (cases fe) (simp_all add: do_entry_def)
  from do_entry_Inr [of fec e w "(c, w1)"] run fe
  have "send_event (Some e) (Some (klass e)) (closure_timestamp fec) (closure_thread fec) w
          = Inr w1"
    by simp
  from send_event_Inr [OF this] show "table w1 = table w" by simp
next
  assume "\<forall>fe\<in>set (table w). has_finalizer (klass fe)"
  then show "\<exists>w'. generate_events w = Inr w'" by (rule generate_events_total)
qed

text \<open>The sweep of the demo world returns, with the demo table as it was.\<close>

theorem generate_events_read_only_witness:
  "\<exists>w'. generate_events demo_world = Inr w' \<and> table w' = demo_table"
proof -
  have h: "\<forall>fe\<in>set (table demo_world). has_finalizer (klass fe)"
    by (simp add: demo_defs)
  have t: "table demo_world = demo_table" by (simp add: demo_world_def)
  from generate_events_read_only [of demo_world] h t show ?thesis by metis
qed

subsection \<open>Two sweeps in a row\<close>

lemma elapse_fields:
  "table ((elapse d w)\<lparr>table := tbl\<rparr>) = tbl"
  "JfrTicks_now ((elapse d w)\<lparr>table := tbl\<rparr>) = JfrTicks_now w + int d"
  by (simp_all add: elapse_def JfrTicks_now_def)

text \<open>
  C8. Two consecutive sweeps: the first runs in \<open>w\<close>; then \<open>d\<close> ticks pass and the table
  may have become \<open>tbl\<close>; then the second runs. Both complete, with one event per entry,
  and the timestamp on every event of the second sweep is greater than or equal to the
  timestamp on every event of the first.
\<close>

theorem consecutive_sweeps_timestamps_nondecreasing:
  assumes "\<forall>fe\<in>set (table w). has_finalizer (klass fe)"
    and "\<forall>fe\<in>set tbl. has_finalizer (klass fe)"
  shows "\<exists>w1 w2.
           generate_events w = Inr w1 \<and>
           generate_events ((elapse d w1)\<lparr>table := tbl\<rparr>) = Inr w2 \<and>
           length (new_events w w1) = length (table w) \<and>
           length (new_events ((elapse d w1)\<lparr>table := tbl\<rparr>) w2) = length tbl \<and>
           (\<forall>e1\<in>set (new_events w w1).
              \<forall>e2\<in>set (new_events ((elapse d w1)\<lparr>table := tbl\<rparr>) w2).
                \<exists>t1 t2. endtime e1 = Some t1 \<and> endtime e2 = Some t2 \<and> t1 \<le> t2)"
proof -
  obtain w1 where run1: "generate_events w = Inr w1"
    using generate_events_total [OF assms(1)] by blast
  let ?v = "(elapse d w1)\<lparr>table := tbl\<rparr>"
  have "\<forall>fe\<in>set (table ?v). has_finalizer (klass fe)"
    using assms(2) by (simp add: elapse_fields)
  then obtain w2 where run2: "generate_events ?v = Inr w2"
    using generate_events_total by blast
  have now: "JfrTicks_now ?v = JfrTicks_now w + int d"
    using generate_events_Inr [OF run1] by (simp add: elapse_def JfrTicks_now_def)
  have len1: "length (new_events w w1) = length (table w)"
    by (rule generate_events_nth(1) [OF run1])
  have len2: "length (new_events ?v w2) = length tbl"
    using generate_events_nth(1) [OF run2] by (simp add: elapse_fields)
  have stamp1: "endtime e1 = Some (JfrTicks_now w)" if "e1 \<in> set (new_events w w1)" for e1
    using generate_events_set [OF run1 that] by (auto simp: sweep_rel_def)
  have stamp2: "endtime e2 = Some (JfrTicks_now w + int d)"
    if "e2 \<in> set (new_events ?v w2)" for e2
    using generate_events_set [OF run2 that] now by (auto simp: sweep_rel_def)
  have "\<exists>t1 t2. endtime e1 = Some t1 \<and> endtime e2 = Some t2 \<and> t1 \<le> t2"
    if "e1 \<in> set (new_events w w1)" "e2 \<in> set (new_events ?v w2)" for e1 e2
    using stamp1 [OF that(1)] stamp2 [OF that(2)] by simp
  with run1 run2 len1 len2 show ?thesis by blast
qed

text \<open>The demo world swept twice, five ticks apart.\<close>

theorem consecutive_sweeps_timestamps_nondecreasing_witness:
  "list_all (\<lambda>fe. has_finalizer (klass fe)) (table demo_world) \<and>
   list_all (\<lambda>fe. has_finalizer (klass fe)) demo_table \<and>
   (\<exists>w1 w2.
      generate_events demo_world = Inr w1 \<and>
      generate_events ((elapse 5 w1)\<lparr>table := demo_table\<rparr>) = Inr w2 \<and>
      length (new_events demo_world w1) = 2 \<and>
      length (new_events ((elapse 5 w1)\<lparr>table := demo_table\<rparr>) w2) = 2 \<and>
      (\<forall>e1\<in>set (new_events demo_world w1).
         \<forall>e2\<in>set (new_events ((elapse 5 w1)\<lparr>table := demo_table\<rparr>) w2).
           \<exists>t1 t2. endtime e1 = Some t1 \<and> endtime e2 = Some t2 \<and> t1 \<le> t2))"
proof -
  have h1: "\<forall>fe\<in>set (table demo_world). has_finalizer (klass fe)"
    by (simp add: demo_defs)
  have h2: "\<forall>fe\<in>set demo_table. has_finalizer (klass fe)"
    by (simp add: demo_defs)
  have t: "length (table demo_world) = 2" "length demo_table = 2"
    by (simp_all add: demo_world_def demo_table_def)
  from consecutive_sweeps_timestamps_nondecreasing [OF h1 h2, of 5] h1 h2
  show ?thesis unfolding t list_all_iff by blast
qed

subsection \<open>The counter invariant\<close>

text \<open>
  C9. If every entry of the table satisfies 0 \<open>\<le>\<close> finalized \<open>\<le>\<close> enqueued \<open>\<le>\<close>
  registered, then every event committed by the unload path (entry found or not: an
  absent entry gives the counters 0, 0, 0) and every event committed by the sweep
  satisfies 0 \<open>\<le>\<close> finalized \<open>\<le>\<close> enqueued \<open>\<le>\<close> registered. Both paths do commit: the
  unload of a class with a finalizer commits one event, and the sweep over entries of
  classes with finalizers commits one event per entry.
\<close>

theorem committed_counters_ordered:
  assumes "\<forall>fe\<in>set (table w). entry_ordered fe"
  shows "(\<forall>ik w'. send_unload_event ik w = Inr w' \<longrightarrow>
            (\<forall>ev\<in>set (new_events w w'). event_ordered ev)) \<and>
         (\<forall>w'. generate_events w = Inr w' \<longrightarrow>
            (\<forall>ev\<in>set (new_events w w'). event_ordered ev)) \<and>
         (\<forall>k. has_finalizer k \<longrightarrow>
            (\<exists>w'. send_unload_event (Some k) w = Inr w' \<and> length (new_events w w') = 1)) \<and>
         ((\<forall>fe\<in>set (table w). has_finalizer (klass fe)) \<longrightarrow>
            (\<exists>w'. generate_events w = Inr w' \<and>
               length (new_events w w') = length (table w)))"
proof (intro conjI allI impI ballI)
  fix ik w' ev
  assume run: "send_unload_event ik w = Inr w'" and ev: "ev \<in> set (new_events w w')"
  let ?fe = "FinalizerTable_lookup ik (Thread_current w) w"
  from send_event_Inr [OF send_unload_event_Inr [OF run]] obtain ev' where
    ev': "committed w' = committed w @ [ev']"
      "ev_registered ev' = (case ?fe of None \<Rightarrow> 0 | Some e \<Rightarrow> registered e)"
      "ev_enqueued ev' = (case ?fe of None \<Rightarrow> 0 | Some e \<Rightarrow> enqueued e)"
      "ev_finalized ev' = (case ?fe of None \<Rightarrow> 0 | Some e \<Rightarrow> finalized e)"
    by auto
  from ev ev'(1) have same: "ev = ev'" by (simp add: new_events_def)
  show "event_ordered ev"
  proof (cases ?fe)
    case None
    with ev' same show ?thesis by (simp add: event_ordered_def)
  next
    case (Some e)
    then have "e \<in> set (table w)"
      by (cases ik) (auto simp: FinalizerTable_lookup_def find_Some_iff)
    with assms have "entry_ordered e" by blast
    with Some ev' same show ?thesis by (simp add: event_ordered_def entry_ordered_def)
  qed
next
  fix w' ev
  assume run: "generate_events w = Inr w'" and ev: "ev \<in> set (new_events w w')"
  from generate_events_set [OF run ev] obtain fe where
    "fe \<in> set (table w)" "ev_registered ev = registered fe"
    "ev_enqueued ev = enqueued fe" "ev_finalized ev = finalized fe"
    by (auto simp: sweep_rel_def)
  with assms show "event_ordered ev"
    by (auto simp: event_ordered_def entry_ordered_def)
next
  fix k :: InstanceKlass
  assume hf: "has_finalizer k"
  obtain w' where run: "send_unload_event (Some k) w = Inr w'"
    using send_unload_event_total [OF hf] by blast
  from send_event_Inr [OF send_unload_event_Inr [OF run]]
  have "length (new_events w w') = 1" by (auto simp: new_events_def)
  with run show "\<exists>w'. send_unload_event (Some k) w = Inr w' \<and> length (new_events w w') = 1"
    by blast
next
  assume wf: "\<forall>fe\<in>set (table w). has_finalizer (klass fe)"
  obtain w' where run: "generate_events w = Inr w'"
    using generate_events_total [OF wf] by blast
  with generate_events_nth(1) [OF run]
  show "\<exists>w'. generate_events w = Inr w' \<and> length (new_events w w') = length (table w)"
    by blast
qed

text \<open>
  The demo table satisfies the invariant; so do the event of the tracked
  \<open>demo_klass_A\<close>, the all-zero event of the untracked \<open>demo_klass_D\<close>, and the two
  events of the sweep.
\<close>

theorem committed_counters_ordered_witness:
  "list_all entry_ordered (table demo_world) \<and>
   (\<exists>w'. send_unload_event (Some demo_klass_A) demo_world = Inr w' \<and>
      length (new_events demo_world w') = 1 \<and>
      list_all event_ordered (new_events demo_world w')) \<and>
   (\<exists>w'. send_unload_event (Some demo_klass_D) demo_world = Inr w' \<and>
      length (new_events demo_world w') = 1 \<and>
      list_all event_ordered (new_events demo_world w')) \<and>
   (\<exists>w'. generate_events demo_world = Inr w' \<and>
      length (new_events demo_world w') = 2 \<and>
      list_all event_ordered (new_events demo_world w'))"
proof -
  have h: "\<forall>fe\<in>set (table demo_world). entry_ordered fe"
    by (simp add: demo_defs entry_ordered_def)
  have wf: "\<forall>fe\<in>set (table demo_world). has_finalizer (klass fe)"
    by (simp add: demo_defs)
  have hA: "has_finalizer demo_klass_A" by (simp add: demo_klass_A_def)
  have hD: "has_finalizer demo_klass_D" by (simp add: demo_klass_D_def)
  have t: "length (table demo_world) = 2"
    by (simp add: demo_world_def demo_table_def)
  note inst = committed_counters_ordered [OF h]
  from inst hA have A: "\<exists>w'. send_unload_event (Some demo_klass_A) demo_world = Inr w' \<and>
      length (new_events demo_world w') = 1 \<and>
      list_all event_ordered (new_events demo_world w')"
    unfolding list_all_iff by blast
  from inst hD have D: "\<exists>w'. send_unload_event (Some demo_klass_D) demo_world = Inr w' \<and>
      length (new_events demo_world w') = 1 \<and>
      list_all event_ordered (new_events demo_world w')"
    unfolding list_all_iff by blast
  from inst wf t have S: "\<exists>w'. generate_events demo_world = Inr w' \<and>
      length (new_events demo_world w') = 2 \<and>
      list_all event_ordered (new_events demo_world w')"
    unfolding list_all_iff by metis
  from h A D S show ?thesis unfolding list_all_iff by blast
qed

end
